theory Spec2Isabelle
  imports Complex_Main
begin

section \<open>The key-value store of src/kv-store.js\<close>

text \<open>
  The module keeps two variables, \<open>store\<close> (a plain JavaScript object used as a
  dictionary) and \<open>isInitialized\<close>, and exports \<open>get\<close>, \<open>set\<close>, \<open>del\<close>, \<open>mget\<close>,
  \<open>mset\<close>, \<open>mdel\<close> and \<open>getByPrefix\<close>. The model follows the module function by
  function. What JavaScript does behind the three object operations the module uses
  (\<open>store[key]\<close>, \<open>store[key] = value\<close>, \<open>delete store[key]\<close>) and behind
  \<open>Object.entries\<close> and \<open>||\<close> is written out first.

  Scope of the model.
  \<^item> Every exported function runs to completion before the next one starts: the
    interleaving of calls at their \<open>await\<close> points is not modelled. A run of
    \<open>initializeStore\<close> that was started without being awaited (the call at the end of
    the module) is modelled: it is in flight until it resumes, between two calls of the
    exported functions. A function of the model is exact when it is called on a settled
    module, where \<open>isInitialized\<close> is set and no run is in flight, and it is one of the
    schedules of the source otherwise.
  \<^item> Keys are strings and stored values are JSON values. Values are immutable in the
    model; in the source a stored object is shared by reference with the caller. A JSON
    number is a real number: the module only ever tests a number for being zero.
  \<^item> The timer \<open>setInterval(saveStore, 30000)\<close> at the end of the module is a call of
    \<open>saveStore\<close> between the calls of the exported functions.
  \<^item> A snapshot file that parses is taken to hold a JSON object, which is the only thing
    \<open>saveStore\<close> writes. A file holding another JSON value (\<open>null\<close>, an array, a string)
    is outside the model.
\<close>

subsection \<open>JSON values and JavaScript values\<close>

datatype json =
    JNull
  | JBool bool
  | JNum real
  | JStr string
  | JArr "json list"
  | JObj "(string \<times> json) list"

type_synonym props = "(string \<times> json) list"

text \<open>
  What a property read can produce: \<open>undefined\<close>, a JSON value, or one of the built-in
  objects and functions that every object inherits (named by its path, such as
  \<open>Object.prototype.toString\<close>).
\<close>

datatype jsval = Undefined | Val json | Builtin string

text \<open>ToBoolean.\<close>

fun truthy :: "jsval \<Rightarrow> bool" where
  "truthy Undefined = False"
| "truthy (Builtin b) = True"
| "truthy (Val JNull) = False"
| "truthy (Val (JBool b)) = b"
| "truthy (Val (JNum n)) = (n \<noteq> 0)"
| "truthy (Val (JStr s)) = (s \<noteq> [])"
| "truthy (Val (JArr xs)) = True"
| "truthy (Val (JObj ps)) = True"

text \<open>The expression \<open>x || null\<close>.\<close>

definition or_null :: "jsval \<Rightarrow> jsval" where
  "or_null x = (if truthy x then x else Val JNull)"

text \<open>\<open>key.startsWith(prefix)\<close>.\<close>

fun startsWith :: "string \<Rightarrow> string \<Rightarrow> bool" where
  "startsWith key [] = True"
| "startsWith [] (p # ps) = False"
| "startsWith (c # cs) (p # ps) = (c = p \<and> startsWith cs ps)"

subsection \<open>Array indices\<close>

text \<open>
  A property key is an array index when it is the canonical decimal form of an integer
  from 0 to \<open>2^32 - 2\<close>. Such keys come first, in ascending numeric order, when the
  properties of an object are enumerated.
\<close>

definition digit_value :: "char \<Rightarrow> nat option" where
  "digit_value c = map_of (zip ''0123456789'' [0, 1, 2, 3, 4, 5, 6, 7, 8, 9]) c"

fun digits_value :: "string \<Rightarrow> nat \<Rightarrow> nat option" where
  "digits_value [] acc = Some acc"
| "digits_value (c # cs) acc =
     (case digit_value c of None \<Rightarrow> None | Some d \<Rightarrow> digits_value cs (10 * acc + d))"

definition array_index :: "string \<Rightarrow> nat option" where
  "array_index k =
     (case k of
        [] \<Rightarrow> None
      | c # cs \<Rightarrow>
          if c = CHR ''0'' \<and> cs \<noteq> [] then None
          else (case digits_value k 0 of
                  None \<Rightarrow> None
                | Some n \<Rightarrow> if n < 4294967295 then Some n else None))"

definition is_index :: "string \<times> json \<Rightarrow> bool" where
  "is_index p = (array_index (fst p) \<noteq> None)"

definition index_of :: "string \<times> json \<Rightarrow> nat" where
  "index_of p = (case array_index (fst p) of None \<Rightarrow> 0 | Some n \<Rightarrow> n)"

subsection \<open>Plain objects\<close>

text \<open>
  An object has its own properties, kept in the order of their creation, and a prototype.
  The store starts as \<open>{}\<close> or as the result of \<open>JSON.parse\<close>, whose prototype is
  \<open>Object.prototype\<close>; an assignment to \<open>__proto__\<close> can replace the prototype by
  \<open>null\<close>, by a JSON object or by a JSON array.
\<close>

datatype prototype =
    ObjectPrototype
  | NullPrototype
  | PlainObject props
  | ArrayObject "json list"

record object =
  own :: props
  proto :: prototype

definition empty_object :: object where
  "empty_object = \<lparr>own = [], proto = ObjectPrototype\<rparr>"

fun get_own :: "props \<Rightarrow> string \<Rightarrow> json option" where
  "get_own [] k = None"
| "get_own ((k', v') # ps) k = (if k' = k then Some v' else get_own ps k)"

text \<open>
  Defining an own data property: an existing property keeps its place and takes the new
  value, a new property is created last.
\<close>

fun define_own :: "string \<Rightarrow> json \<Rightarrow> props \<Rightarrow> props" where
  "define_own k v [] = [(k, v)]"
| "define_own k v ((k', v') # ps) =
     (if k' = k then (k, v) # ps else (k', v') # define_own k v ps)"

fun delete_own :: "string \<Rightarrow> props \<Rightarrow> props" where
  "delete_own k [] = []"
| "delete_own k ((k', v') # ps) =
     (if k' = k then delete_own k ps else (k', v') # delete_own k ps)"

text \<open>
  The properties of \<open>Object.prototype\<close> and \<open>Array.prototype\<close> with string names (as of
  Node.js 18, the version the repository's README asks for). All are writable data
  properties holding built-in functions, except \<open>__proto__\<close>, an accessor that is
  handled apart.
\<close>

definition object_prototype_names :: "string list" where
  "object_prototype_names =
     [''constructor'', ''__defineGetter__'', ''__defineSetter__'', ''hasOwnProperty'',
      ''__lookupGetter__'', ''__lookupSetter__'', ''isPrototypeOf'',
      ''propertyIsEnumerable'', ''toString'', ''valueOf'', ''toLocaleString'']"

definition array_prototype_names :: "string list" where
  "array_prototype_names =
     [''constructor'', ''at'', ''concat'', ''copyWithin'', ''fill'', ''find'',
      ''findIndex'', ''findLast'', ''findLastIndex'', ''lastIndexOf'', ''pop'', ''push'',
      ''reverse'', ''shift'', ''unshift'', ''slice'', ''sort'', ''splice'', ''includes'',
      ''indexOf'', ''join'', ''keys'', ''entries'', ''values'', ''forEach'', ''filter'',
      ''flat'', ''flatMap'', ''map'', ''every'', ''some'', ''reduce'', ''reduceRight'',
      ''toLocaleString'', ''toString'']"

text \<open>
  A read that reaches \<open>Object.prototype\<close>. The getter of \<open>__proto__\<close> answers with the
  prototype of the object the read started from, here \<open>self\<close>.
\<close>

definition from_object_prototype :: "jsval \<Rightarrow> string \<Rightarrow> jsval" where
  "from_object_prototype self k =
     (if k = ''__proto__'' then self
      else if k \<in> set object_prototype_names then Builtin (''Object.prototype.'' @ k)
      else Undefined)"

definition from_array :: "json list \<Rightarrow> string \<Rightarrow> jsval" where
  "from_array xs k =
     (case array_index k of
        Some i \<Rightarrow>
          if i < length xs then Val (xs ! i) else from_object_prototype (Val (JArr xs)) k
      | None \<Rightarrow>
          if k = ''length'' then Val (JNum (of_nat (length xs)))
          else if k \<in> set array_prototype_names then Builtin (''Array.prototype.'' @ k)
          else from_object_prototype (Val (JArr xs)) k)"

text \<open>The read \<open>obj[k]\<close> when \<open>obj\<close> has no own property \<open>k\<close>.\<close>

fun inherited :: "prototype \<Rightarrow> string \<Rightarrow> jsval" where
  "inherited NullPrototype k = Undefined"
| "inherited ObjectPrototype k = from_object_prototype (Builtin ''Object.prototype'') k"
| "inherited (PlainObject ps) k =
     (case get_own ps k of
        Some x \<Rightarrow> Val x
      | None \<Rightarrow> from_object_prototype (Val (JObj ps)) k)"
| "inherited (ArrayObject xs) k = from_array xs k"

text \<open>The read \<open>obj[k]\<close>.\<close>

definition get_property :: "object \<Rightarrow> string \<Rightarrow> jsval" where
  "get_property obj k =
     (case get_own (own obj) k of
        Some v \<Rightarrow> Val v
      | None \<Rightarrow> inherited (proto obj) k)"

text \<open>
  Whether an assignment to \<open>__proto__\<close> on the object reaches the setter of
  \<open>Object.prototype\<close>: no own property of that name on the object or on a plain object it
  inherits from, and a prototype chain that ends in \<open>Object.prototype\<close>.
\<close>

definition reaches_proto_setter :: "object \<Rightarrow> bool" where
  "reaches_proto_setter obj =
     (case get_own (own obj) ''__proto__'' of
        Some v \<Rightarrow> False
      | None \<Rightarrow>
          (case proto obj of
             ObjectPrototype \<Rightarrow> True
           | NullPrototype \<Rightarrow> False
           | PlainObject ps \<Rightarrow> get_own ps ''__proto__'' = None
           | ArrayObject xs \<Rightarrow> True))"

text \<open>
  The assignment \<open>obj[k] = v\<close>. The setter of \<open>__proto__\<close> replaces the prototype when the
  value is an object or \<open>null\<close> and does nothing otherwise. Every other assignment
  defines an own property: all inherited data properties are writable.
\<close>

definition set_property :: "object \<Rightarrow> string \<Rightarrow> json \<Rightarrow> object" where
  "set_property obj k v =
     (if k = ''__proto__'' \<and> reaches_proto_setter obj then
        (case v of
           JObj ps \<Rightarrow> obj\<lparr>proto := PlainObject ps\<rparr>
         | JArr xs \<Rightarrow> obj\<lparr>proto := ArrayObject xs\<rparr>
         | JNull \<Rightarrow> obj\<lparr>proto := NullPrototype\<rparr>
         | _ \<Rightarrow> obj)
      else obj\<lparr>own := define_own k v (own obj)\<rparr>)"

text \<open>The statement \<open>delete obj[k]\<close>.\<close>

definition delete_property :: "object \<Rightarrow> string \<Rightarrow> object" where
  "delete_property obj k = obj\<lparr>own := delete_own k (own obj)\<rparr>"

text \<open>
  \<open>Object.entries(obj)\<close>: the own properties, array indices first in ascending order,
  then the other keys in the order of their creation.
\<close>

definition entries :: "object \<Rightarrow> props" where
  "entries obj =
     sort_key index_of (filter is_index (own obj))
     @ filter (\<lambda>p. \<not> is_index p) (own obj)"

text \<open>
  \<open>JSON.parse\<close> of the text of an object, given the members in the order of the text:
  each member defines an own property (also a member named \<open>__proto__\<close>).
\<close>

definition parse_object :: "props \<Rightarrow> object" where
  "parse_object members =
     \<lparr>own = fold (\<lambda>(k, v) ps. define_own k v ps) members [], proto = ObjectPrototype\<rparr>"

subsection \<open>The module state and its environment\<close>

text \<open>
  The module variables, the number of runs of \<open>initializeStore\<close> that have passed the
  test of \<open>isInitialized\<close> and wait for their file operations, and the trace of what
  the module has done to the outside: lines on the console and snapshots written to the
  data file (the object handed to \<open>JSON.stringify\<close>, as the entries it serialises).
\<close>

datatype effect = ConsoleLog string | ConsoleError string | WriteFile props

record kv =
  store :: object
  isInitialized :: bool
  inFlight :: nat
  effects :: "effect list"

text \<open>
  The module variables as declared, \<open>let store = {}; let isInitialized = false;\<close>,
  before the statements at the end of the module have run.
\<close>

definition initial :: kv where
  "initial = \<lparr>store = empty_object, isInitialized = False, inFlight = 0, effects = []\<rparr>"

text \<open>
  What the environment answers during one call: whether \<open>NODE_ENV\<close> is \<open>production\<close>,
  whether \<open>fs.mkdir\<close> succeeds, what the data file holds, and whether
  \<open>JSON.stringify\<close> and \<open>fs.writeFile\<close> succeed.
\<close>

datatype snapshot = Missing | Malformed | Members props

record io =
  production :: bool
  mkdir_ok :: bool
  snapshot :: snapshot
  write_ok :: bool

datatype error = MkdirError | ReadError | SyntaxError | WriteError

type_synonym 'a outcome = "(error + 'a) \<times> kv"

definition mkdir :: "io \<Rightarrow> error + unit" where
  "mkdir e = (if mkdir_ok e then Inr () else Inl MkdirError)"

text \<open>\<open>JSON.parse(await fs.readFile(DATA_FILE, 'utf8'))\<close>.\<close>

definition read_and_parse :: "io \<Rightarrow> error + object" where
  "read_and_parse e =
     (case snapshot e of
        Missing \<Rightarrow> Inl ReadError
      | Malformed \<Rightarrow> Inl SyntaxError
      | Members ms \<Rightarrow> Inr (parse_object ms))"

text \<open>\<open>await fs.writeFile(DATA_FILE, JSON.stringify(store, null, 2))\<close>.\<close>

definition writeFile :: "io \<Rightarrow> error + unit" where
  "writeFile e = (if write_ok e then Inr () else Inl WriteError)"

definition emit :: "effect \<Rightarrow> kv \<Rightarrow> kv" where
  "emit x s = s\<lparr>effects := effects s @ [x]\<rparr>"

subsection \<open>initializeStore and saveStore\<close>

text \<open>
  A run of \<open>initializeStore\<close> that is awaited, with nothing else running before it
  ends. Both \<open>try\<close> blocks are the \<open>case\<close> distinctions below: the \<open>Inl\<close> branch is
  the \<open>catch\<close>.
\<close>

definition initializeStore :: "io \<Rightarrow> kv \<Rightarrow> unit outcome" where
  "initializeStore e s =
     (if isInitialized s then (Inr (), s)
      else if production e then
        (Inr (),
         emit (ConsoleLog ''KV store initialized in-memory for production'')
           (s\<lparr>store := empty_object, isInitialized := True\<rparr>))
      else
        (case mkdir e of
           Inl err \<Rightarrow>
             (Inr (),
              (emit (ConsoleError ''Error initializing KV store:'') s)
                \<lparr>store := empty_object, isInitialized := True\<rparr>)
         | Inr u \<Rightarrow>
             (case read_and_parse e of
                Inr obj \<Rightarrow>
                  (Inr (),
                   (emit (ConsoleLog ''KV store loaded from file'') (s\<lparr>store := obj\<rparr>))
                     \<lparr>isInitialized := True\<rparr>)
              | Inl err \<Rightarrow>
                  (Inr (),
                   (emit (ConsoleLog ''KV store initialized with empty data'')
                      (s\<lparr>store := empty_object\<rparr>))
                     \<lparr>isInitialized := True\<rparr>))))"

text \<open>
  The call \<open>initializeStore()\<close> at the end of the module is not awaited. The function
  runs up to its first \<open>await\<close>: it returns at once when the store is initialized,
  completes at once in production, and is in flight otherwise.
\<close>

definition start_initializeStore :: "io \<Rightarrow> kv \<Rightarrow> kv" where
  "start_initializeStore e s =
     (if isInitialized s then s
      else if production e then
        emit (ConsoleLog ''KV store initialized in-memory for production'')
          (s\<lparr>store := empty_object, isInitialized := True\<rparr>)
      else s\<lparr>inFlight := inFlight s + 1\<rparr>)"

text \<open>
  A run in flight resumes once its file operations are done and runs to its end, without
  looking at \<open>isInitialized\<close> again: it assigns \<open>store\<close> and sets the flag.
\<close>

definition resume_initializeStore :: "io \<Rightarrow> kv \<Rightarrow> kv" where
  "resume_initializeStore e s =
     (if inFlight s = 0 then s
      else
        (case mkdir e of
           Inl err \<Rightarrow>
             (emit (ConsoleError ''Error initializing KV store:'') s)
               \<lparr>store := empty_object, isInitialized := True, inFlight := inFlight s - 1\<rparr>
         | Inr u \<Rightarrow>
             (case read_and_parse e of
                Inr obj \<Rightarrow>
                  (emit (ConsoleLog ''KV store loaded from file'') (s\<lparr>store := obj\<rparr>))
                    \<lparr>isInitialized := True, inFlight := inFlight s - 1\<rparr>
              | Inl err \<Rightarrow>
                  (emit (ConsoleLog ''KV store initialized with empty data'')
                     (s\<lparr>store := empty_object\<rparr>))
                    \<lparr>isInitialized := True, inFlight := inFlight s - 1\<rparr>)))"

text \<open>The line \<open>if (!isInitialized) await initializeStore();\<close> that opens every function.\<close>

definition ensure_initialized :: "io \<Rightarrow> kv \<Rightarrow> unit outcome" where
  "ensure_initialized e s = (if \<not> isInitialized s then initializeStore e s else (Inr (), s))"

definition saveStore :: "io \<Rightarrow> kv \<Rightarrow> unit outcome" where
  "saveStore e s =
     (case ensure_initialized e s of
        (Inl err, s1) \<Rightarrow> (Inl err, s1)
      | (Inr u, s1) \<Rightarrow>
          if production e then (Inr (), s1)
          else
            (case writeFile e of
               Inr w \<Rightarrow> (Inr (), emit (WriteFile (entries (store s1))) s1)
             | Inl err \<Rightarrow> (Inr (), emit (ConsoleError ''Error saving KV store:'') s1)))"

subsection \<open>The exported functions\<close>

definition get :: "io \<Rightarrow> string \<Rightarrow> kv \<Rightarrow> jsval outcome" where
  "get e key s =
     (case ensure_initialized e s of
        (Inl err, s1) \<Rightarrow> (Inl err, s1)
      | (Inr u, s1) \<Rightarrow> (Inr (or_null (get_property (store s1) key)), s1))"

definition set_kv :: "io \<Rightarrow> string \<Rightarrow> json \<Rightarrow> kv \<Rightarrow> unit outcome" where
  "set_kv e key v s =
     (case ensure_initialized e s of
        (Inl err, s1) \<Rightarrow> (Inl err, s1)
      | (Inr u, s1) \<Rightarrow> saveStore e (s1\<lparr>store := set_property (store s1) key v\<rparr>))"

definition del :: "io \<Rightarrow> string \<Rightarrow> kv \<Rightarrow> unit outcome" where
  "del e key s =
     (case ensure_initialized e s of
        (Inl err, s1) \<Rightarrow> (Inl err, s1)
      | (Inr u, s1) \<Rightarrow> saveStore e (s1\<lparr>store := delete_property (store s1) key\<rparr>))"

text \<open>\<open>keys.map(key => store[key] || null)\<close>: the callback runs on each key in turn.\<close>

definition mget :: "io \<Rightarrow> string list \<Rightarrow> kv \<Rightarrow> jsval list outcome" where
  "mget e keys s =
     (case ensure_initialized e s of
        (Inl err, s1) \<Rightarrow> (Inl err, s1)
      | (Inr u, s1) \<Rightarrow> (Inr (map (\<lambda>key. or_null (get_property (store s1) key)) keys), s1))"

text \<open>The loop \<open>for (const [key, value] of keyValuePairs) store[key] = value\<close>.\<close>

fun mset_loop :: "props \<Rightarrow> object \<Rightarrow> object" where
  "mset_loop [] obj = obj"
| "mset_loop ((key, v) # rest) obj = mset_loop rest (set_property obj key v)"

definition mset :: "io \<Rightarrow> props \<Rightarrow> kv \<Rightarrow> unit outcome" where
  "mset e keyValuePairs s =
     (case ensure_initialized e s of
        (Inl err, s1) \<Rightarrow> (Inl err, s1)
      | (Inr u, s1) \<Rightarrow> saveStore e (s1\<lparr>store := mset_loop keyValuePairs (store s1)\<rparr>))"

text \<open>The loop \<open>for (const key of keys) delete store[key]\<close>.\<close>

fun mdel_loop :: "string list \<Rightarrow> object \<Rightarrow> object" where
  "mdel_loop [] obj = obj"
| "mdel_loop (key # rest) obj = mdel_loop rest (delete_property obj key)"

definition mdel :: "io \<Rightarrow> string list \<Rightarrow> kv \<Rightarrow> unit outcome" where
  "mdel e keys s =
     (case ensure_initialized e s of
        (Inl err, s1) \<Rightarrow> (Inl err, s1)
      | (Inr u, s1) \<Rightarrow> saveStore e (s1\<lparr>store := mdel_loop keys (store s1)\<rparr>))"

text \<open>
  The loop of \<open>getByPrefix\<close> over \<open>Object.entries(store)\<close>, with \<open>results\<close> as the
  accumulator; a result \<open>{ key, value }\<close> is the pair.
\<close>

fun prefix_loop :: "string \<Rightarrow> props \<Rightarrow> props \<Rightarrow> props" where
  "prefix_loop prefix [] results = results"
| "prefix_loop prefix ((key, v) # rest) results =
     prefix_loop prefix rest
       (if startsWith key prefix then results @ [(key, v)] else results)"

definition getByPrefix :: "io \<Rightarrow> string \<Rightarrow> kv \<Rightarrow> props outcome" where
  "getByPrefix e prefix s =
     (case ensure_initialized e s of
        (Inl err, s1) \<Rightarrow> (Inl err, s1)
      | (Inr u, s1) \<Rightarrow> (Inr (prefix_loop prefix (entries (store s1)) []), s1))"

subsection \<open>Notions used in the statements\<close>

text \<open>
  The state in which the body of an exported function runs: the state it was called in,
  initialized on the way if it was not yet.
\<close>

definition ready :: "io \<Rightarrow> kv \<Rightarrow> kv" where
  "ready e s = snd (ensure_initialized e s)"

text \<open>
  A settled module: \<open>isInitialized\<close> is set and no run of \<open>initializeStore\<close> is in
  flight, so that nothing assigns \<open>store\<close> but the exported functions.
\<close>

definition settled :: "kv \<Rightarrow> bool" where
  "settled s = (isInitialized s \<and> inFlight s = 0)"

text \<open>No two own properties of an object share a key.\<close>

definition distinct_keys :: "object \<Rightarrow> bool" where
  "distinct_keys obj = distinct (map fst (own obj))"

text \<open>
  A development environment with no data file yet, in which every file operation
  succeeds, and the values of the spec's scenario.
\<close>

definition dev :: io where
  "dev = \<lparr>production = False, mkdir_ok = True, snapshot = Missing, write_ok = True\<rparr>"

definition video_A :: json where
  "video_A = JObj [(''title'', JStr ''A''), (''views'', JNum 0)]"

definition video_B :: json where
  "video_B = JObj [(''title'', JStr ''B''), (''views'', JNum 5)]"

text \<open>The settled module with the empty store, and a settled module with two entries.\<close>

definition settled_empty :: kv where
  "settled_empty = \<lparr>store = empty_object, isInitialized = True, inFlight = 0, effects = []\<rparr>"

definition settled_pair :: kv where
  "settled_pair =
     \<lparr>store = \<lparr>own = [(''user:1'', JStr ''u''), (''video:1'', video_A)], proto = ObjectPrototype\<rparr>,
      isInitialized = True, inFlight = 0, effects = []\<rparr>"

text \<open>A store with four entries, one of them under an array index.\<close>

definition sample :: kv where
  "sample =
     snd (mset dev
       [(''video:2'', video_B), (''user:1'', JStr ''u''), (''7'', JNum 7),
        (''video:1'', video_A)] initial)"

text \<open>A store whose four values are the falsy JSON values.\<close>

definition falsy_sample :: kv where
  "falsy_sample =
     snd (mset dev
       [(''flag'', JBool False), (''count'', JNum 0), (''name'', JStr []),
        (''nothing'', JNull)] initial)"

section \<open>Basic facts\<close>

subsection \<open>Initialization and saving never raise\<close>

lemma initializeStore_returns: "fst (initializeStore e s) = Inr ()"
  by (simp add: initializeStore_def split: sum.splits)

lemma initializeStore_sets_flag: "isInitialized (snd (initializeStore e s))"
  by (simp add: initializeStore_def emit_def split: sum.splits)

lemma ensure_initialized_eq: "ensure_initialized e s = (Inr (), ready e s)"
  by (simp add: ready_def ensure_initialized_def prod_eq_iff initializeStore_returns)

lemma ready_initialized [simp]: "isInitialized (ready e s)"
  by (simp add: ready_def ensure_initialized_def initializeStore_sets_flag)

lemma ready_idle [simp]: "isInitialized s \<Longrightarrow> ready e s = s"
  by (simp add: ready_def ensure_initialized_def)

lemma saveStore_returns [simp]: "fst (saveStore e s) = Inr ()"
  by (simp add: saveStore_def ensure_initialized_eq split: sum.splits)

lemma saveStore_store [simp]: "store (snd (saveStore e s)) = store (ready e s)"
  by (simp add: saveStore_def ensure_initialized_eq emit_def split: sum.splits)

lemma saveStore_flag [simp]: "isInitialized (snd (saveStore e s))"
  by (simp add: saveStore_def ensure_initialized_eq emit_def split: sum.splits)

subsection \<open>The exported functions, with the initialization factored out\<close>

lemma get_eq: "get e key s = (Inr (or_null (get_property (store (ready e s)) key)), ready e s)"
  by (simp add: get_def ensure_initialized_eq)

lemma mget_eq:
  "mget e keys s = (Inr (map (\<lambda>key. or_null (get_property (store (ready e s)) key)) keys), ready e s)"
  by (simp add: mget_def ensure_initialized_eq)

lemma set_kv_returns [simp]: "fst (set_kv e key v s) = Inr ()"
  by (simp add: set_kv_def ensure_initialized_eq)

lemma set_kv_store [simp]:
  "store (snd (set_kv e key v s)) = set_property (store (ready e s)) key v"
  by (simp add: set_kv_def ensure_initialized_eq)

lemma set_kv_flag [simp]: "isInitialized (snd (set_kv e key v s))"
  by (simp add: set_kv_def ensure_initialized_eq)

lemma del_returns [simp]: "fst (del e key s) = Inr ()"
  by (simp add: del_def ensure_initialized_eq)

lemma del_store [simp]: "store (snd (del e key s)) = delete_property (store (ready e s)) key"
  by (simp add: del_def ensure_initialized_eq)

lemma del_flag [simp]: "isInitialized (snd (del e key s))"
  by (simp add: del_def ensure_initialized_eq)

lemma mset_returns [simp]: "fst (mset e kvs s) = Inr ()"
  by (simp add: mset_def ensure_initialized_eq)

lemma mset_store [simp]: "store (snd (mset e kvs s)) = mset_loop kvs (store (ready e s))"
  by (simp add: mset_def ensure_initialized_eq)

lemma mset_flag [simp]: "isInitialized (snd (mset e kvs s))"
  by (simp add: mset_def ensure_initialized_eq)

lemma mdel_returns [simp]: "fst (mdel e keys s) = Inr ()"
  by (simp add: mdel_def ensure_initialized_eq)

lemma mdel_store [simp]: "store (snd (mdel e keys s)) = mdel_loop keys (store (ready e s))"
  by (simp add: mdel_def ensure_initialized_eq)

lemma mdel_flag [simp]: "isInitialized (snd (mdel e keys s))"
  by (simp add: mdel_def ensure_initialized_eq)

lemma prefix_loop_filter:
  "prefix_loop p es acc = acc @ filter (\<lambda>(k, v). startsWith k p) es"
  by (induction p es acc rule: prefix_loop.induct) simp_all

lemma getByPrefix_eq:
  "getByPrefix e p s =
     (Inr (filter (\<lambda>(k, v). startsWith k p) (entries (store (ready e s)))), ready e s)"
  by (simp add: getByPrefix_def ensure_initialized_eq prefix_loop_filter)

subsection \<open>Own properties\<close>

lemma set_entries: "set (entries obj) = set (own obj)"
  by (auto simp: entries_def)

lemma get_own_Some_in: "get_own ps k = Some v \<Longrightarrow> (k, v) \<in> set ps"
  by (induction ps) (auto split: if_splits)

lemma get_own_distinct: "distinct (map fst ps) \<Longrightarrow> (k, v) \<in> set ps \<Longrightarrow> get_own ps k = Some v"
  by (induction ps) (auto simp: rev_image_eqI)

lemma delete_own_twice: "delete_own k (delete_own k ps) = delete_own k ps"
  by (induction ps) auto


lemma keys_define_own:
  "map fst (define_own k v ps) = (if k \<in> set (map fst ps) then map fst ps else map fst ps @ [k])"
  by (induction ps) (auto simp: rev_image_eqI)

lemma distinct_define_own:
  "distinct (map fst ps) \<Longrightarrow> distinct (map fst (define_own k v ps))"
  by (simp add: keys_define_own)

lemma keys_delete_own: "map fst (delete_own k ps) = filter (\<lambda>k'. k' \<noteq> k) (map fst ps)"
  by (induction ps) auto

lemma distinct_delete_own:
  "distinct (map fst ps) \<Longrightarrow> distinct (map fst (delete_own k ps))"
  by (simp add: keys_delete_own)

lemma distinct_keys_set_property:
  "distinct_keys obj \<Longrightarrow> distinct_keys (set_property obj k v)"
  by (auto simp: distinct_keys_def set_property_def distinct_define_own split: json.splits)

lemma distinct_keys_delete_property:
  "distinct_keys obj \<Longrightarrow> distinct_keys (delete_property obj k)"
  by (simp add: distinct_keys_def delete_property_def distinct_delete_own)

lemma distinct_keys_mset_loop:
  "distinct_keys obj \<Longrightarrow> distinct_keys (mset_loop kvs obj)"
  by (induction kvs obj rule: mset_loop.induct) (simp_all add: distinct_keys_set_property)

lemma distinct_keys_mdel_loop:
  "distinct_keys obj \<Longrightarrow> distinct_keys (mdel_loop keys obj)"
  by (induction keys obj rule: mdel_loop.induct) (simp_all add: distinct_keys_delete_property)

lemma distinct_fold_define_own:
  "distinct (map fst ps) \<Longrightarrow>
   distinct (map fst (fold (\<lambda>(k, v) ps. define_own k v ps) ms ps))"
  by (induction ms arbitrary: ps) (auto simp: distinct_define_own)

lemma distinct_keys_parse_object: "distinct_keys (parse_object ms)"
  by (simp add: distinct_keys_def parse_object_def distinct_fold_define_own)

lemma distinct_keys_ready:
  "distinct_keys (store s) \<Longrightarrow> distinct_keys (store (ready e s))"
  by (auto simp: ready_def ensure_initialized_def initializeStore_def emit_def mkdir_def
      read_and_parse_def distinct_keys_parse_object [unfolded distinct_keys_def]
      distinct_keys_def empty_object_def
      split: sum.splits snapshot.splits)

lemma get_own_define_own: "get_own (define_own k v ps) k = Some v"
  by (induction ps) auto

lemma get_own_define_other: "k' \<noteq> k \<Longrightarrow> get_own (define_own k' v ps) k = get_own ps k"
  by (induction ps) auto

lemma get_own_delete_own: "get_own (delete_own k ps) k = None"
  by (induction ps) auto

lemma get_own_delete_other: "k' \<noteq> k \<Longrightarrow> get_own (delete_own k' ps) k = get_own ps k"
  by (induction ps) auto

lemma get_own_set_property:
  "k \<noteq> ''__proto__'' \<Longrightarrow> get_own (own (set_property obj k v)) k = Some v"
  by (simp add: set_property_def get_own_define_own)

lemma get_own_set_property_other:
  "k' \<noteq> k \<Longrightarrow> get_own (own (set_property obj k' v)) k = get_own (own obj) k"
  by (simp add: set_property_def get_own_define_other split: json.splits)

lemma get_own_delete_property_other:
  "k' \<noteq> k \<Longrightarrow> get_own (own (delete_property obj k')) k = get_own (own obj) k"
  by (simp add: delete_property_def get_own_delete_other)

lemma get_own_mset_loop_other:
  "k \<notin> fst ` set kvs \<Longrightarrow> get_own (own (mset_loop kvs obj)) k = get_own (own obj) k"
  by (induction kvs obj rule: mset_loop.induct) (auto simp: get_own_set_property_other)

lemma get_own_mdel_loop_other:
  "k \<notin> set ks \<Longrightarrow> get_own (own (mdel_loop ks obj)) k = get_own (own obj) k"
  by (induction ks obj rule: mdel_loop.induct) (auto simp: get_own_delete_property_other)

lemma delete_property_twice:
  "delete_property (delete_property obj k) k = delete_property obj k"
  by (simp add: delete_property_def delete_own_twice)

lemma repeated_del_store:
  "isInitialized s \<Longrightarrow>
   store (fold (\<lambda>e s. snd (del e k s)) es s) = (if es = [] then store s else delete_property (store s) k)
   \<and> isInitialized (fold (\<lambda>e s. snd (del e k s)) es s)"
proof (induction es arbitrary: s)
  case Nil
  then show ?case by simp
next
  case (Cons e es)
  have "isInitialized (snd (del e k s))" by simp
  from Cons.IH [OF this] Cons.prems show ?case
    by (simp add: delete_property_twice)
qed

subsection \<open>Runs of initializeStore in flight\<close>

lemma ready_inFlight [simp]: "inFlight (ready e s) = inFlight s"
  by (simp add: ready_def ensure_initialized_def initializeStore_def emit_def split: sum.splits)

lemma saveStore_inFlight [simp]: "inFlight (snd (saveStore e s)) = inFlight s"
  by (simp add: saveStore_def ensure_initialized_eq emit_def split: sum.splits)

lemma exported_inFlight [simp]:
  "inFlight (snd (get e k s)) = inFlight s"
  "inFlight (snd (mget e ks s)) = inFlight s"
  "inFlight (snd (getByPrefix e p s)) = inFlight s"
  "inFlight (snd (set_kv e k v s)) = inFlight s"
  "inFlight (snd (del e k s)) = inFlight s"
  "inFlight (snd (mset e kvs s)) = inFlight s"
  "inFlight (snd (mdel e ks s)) = inFlight s"
  by (simp_all add: get_eq mget_eq getByPrefix_eq set_kv_def del_def mset_def mdel_def
      ensure_initialized_eq)

lemma settled_ready: "settled s \<Longrightarrow> ready e s = s"
  by (simp add: settled_def)

lemma settled_preserved:
  "settled s \<Longrightarrow> settled (snd (get e k s))"
  "settled s \<Longrightarrow> settled (snd (mget e ks s))"
  "settled s \<Longrightarrow> settled (snd (getByPrefix e p s))"
  "settled s \<Longrightarrow> settled (snd (set_kv e k v s))"
  "settled s \<Longrightarrow> settled (snd (del e k s))"
  "settled s \<Longrightarrow> settled (snd (mset e kvs s))"
  "settled s \<Longrightarrow> settled (snd (mdel e ks s))"
  "settled s \<Longrightarrow> settled (snd (saveStore e s))"
  by (simp_all add: settled_def get_eq mget_eq getByPrefix_eq)

text \<open>
  An awaited run is a run that starts and resumes with nothing in between.
\<close>

lemma initializeStore_start_resume:
  "snd (initializeStore e s) =
     (if isInitialized s \<or> production e then start_initializeStore e s
      else resume_initializeStore e (start_initializeStore e s))"
  by (simp add: initializeStore_def start_initializeStore_def resume_initializeStore_def
      emit_def split: sum.splits)

text \<open>
  Why the module has to be settled: the run started at the end of the module is still in
  flight when the first \<open>set\<close> is called; when it resumes it assigns \<open>store\<close> and the
  entry is gone.
\<close>

lemma in_flight_run_drops_write:
  "get_own (own (store (snd (set_kv dev ''k'' (JStr ''v'') (start_initializeStore dev initial))))) ''k''
     = Some (JStr ''v'')
   \<and> fst (get dev ''k''
        (resume_initializeStore dev
           (snd (set_kv dev ''k'' (JStr ''v'') (start_initializeStore dev initial)))))
     = Inr (Val JNull)"
proof -
  have s: "start_initializeStore dev initial = initial\<lparr>inFlight := 1\<rparr>"
    by (simp add: start_initializeStore_def initial_def dev_def)
  have f: "inFlight (snd (set_kv dev ''k'' (JStr ''v'') (initial\<lparr>inFlight := 1\<rparr>))) = 1"
    by (simp add: initial_def)
  have "store (resume_initializeStore dev
           (snd (set_kv dev ''k'' (JStr ''v'') (initial\<lparr>inFlight := 1\<rparr>)))) = empty_object"
    and "isInitialized (resume_initializeStore dev
           (snd (set_kv dev ''k'' (JStr ''v'') (initial\<lparr>inFlight := 1\<rparr>))))"
    using f by (simp_all add: resume_initializeStore_def dev_def mkdir_def read_and_parse_def emit_def)
  then show ?thesis
    by (simp add: s get_eq set_property_def get_own_define_own empty_object_def
        get_property_def from_object_prototype_def object_prototype_names_def or_null_def)
qed

subsection \<open>The concrete states of the examples\<close>

lemma not_index_video:
  "array_index ''video:1'' = None" "array_index ''video:2'' = None"
  "array_index ''user:1'' = None"
  by (simp_all add: array_index_def digit_value_def)

lemma ready_dev_initial: "store (ready dev initial) = empty_object"
  by (simp add: ready_def ensure_initialized_def initializeStore_def initial_def dev_def
      mkdir_def read_and_parse_def emit_def)

lemma own_sample:
  "own (store sample) =
     [(''video:2'', video_B), (''user:1'', JStr ''u''), (''7'', JNum 7), (''video:1'', video_A)]"
  by (simp add: sample_def ready_dev_initial set_property_def empty_object_def)

lemma entries_sample:
  "entries (store sample) =
     [(''7'', JNum 7), (''video:2'', video_B), (''user:1'', JStr ''u''), (''video:1'', video_A)]"
  by (simp add: entries_def own_sample is_index_def index_of_def array_index_def digit_value_def)

lemma ready_sample: "ready dev sample = sample"
  by (simp add: sample_def)

lemma own_falsy_sample:
  "own (store falsy_sample) =
     [(''flag'', JBool False), (''count'', JNum 0), (''name'', JStr []), (''nothing'', JNull)]"
  by (simp add: falsy_sample_def ready_dev_initial set_property_def empty_object_def)

lemma ready_falsy_sample: "ready dev falsy_sample = falsy_sample"
  by (simp add: falsy_sample_def)

subsection \<open>What holds without the inherited properties and the falsy values\<close>

text \<open>What holds of C1: a truthy value set under a key other than \<open>__proto__\<close> is read back.\<close>

lemma set_then_get_truthy:
  "k \<noteq> ''__proto__'' \<Longrightarrow> truthy (Val v) \<Longrightarrow>
   fst (get e2 k (snd (set_kv e1 k v s))) = Inr (Val v)"
  by (simp add: get_eq get_property_def get_own_set_property or_null_def)

text \<open>
  What holds of C2 and C5: a key that is no own property of the store and that the store
  does not inherit reads as \<open>null\<close>; a deleted key is no own property.
\<close>

lemma get_absent:
  "get_own (own (store (ready e s))) k = None \<Longrightarrow>
   inherited (proto (store (ready e s))) k = Undefined \<Longrightarrow>
   fst (get e k s) = Inr (Val JNull)"
  by (simp add: get_eq get_property_def or_null_def)

lemma del_removes_own: "get_own (own (store (snd (del e k s)))) k = None"
  by (simp add: delete_property_def get_own_delete_own)

text \<open>
  What holds of C7: an own property \<open>k\<close> of the store is left alone by every call that
  does not name \<open>k\<close>.
\<close>

lemma frame_reads:
  "ready e (snd (get e k' s)) = ready e s"
  "ready e (snd (mget e ks s)) = ready e s"
  "ready e (snd (getByPrefix e p s)) = ready e s"
  by (simp_all add: get_eq mget_eq getByPrefix_eq)

lemma frame_writes:
  "k' \<noteq> k \<Longrightarrow>
     get_own (own (store (snd (set_kv e k' v s)))) k = get_own (own (store (ready e s))) k"
  "k' \<noteq> k \<Longrightarrow>
     get_own (own (store (snd (del e k' s)))) k = get_own (own (store (ready e s))) k"
  "k \<notin> fst ` set kvs \<Longrightarrow>
     get_own (own (store (snd (mset e kvs s)))) k = get_own (own (store (ready e s))) k"
  "k \<notin> set ks \<Longrightarrow>
     get_own (own (store (snd (mdel e ks s)))) k = get_own (own (store (ready e s))) k"
  "get_own (own (store (snd (saveStore e s)))) k = get_own (own (store (ready e s))) k"
  by (simp_all add: get_own_set_property_other get_own_delete_property_other
      get_own_mset_loop_other get_own_mdel_loop_other)

text \<open>
  What holds of C9: with the data file missing or malformed, initialization returns
  normally and leaves the empty object.
\<close>

lemma initializeStore_without_snapshot:
  "\<not> isInitialized s \<Longrightarrow> snapshot e = Missing \<or> snapshot e = Malformed \<Longrightarrow>
   fst (initializeStore e s) = Inr () \<and> store (snd (initializeStore e s)) = empty_object
   \<and> isInitialized (snd (initializeStore e s))"
  by (auto simp: initializeStore_def emit_def mkdir_def read_and_parse_def split: sum.splits)

section \<open>The claims\<close>

subsection \<open>C1: set, then get\<close>

text \<open>
  C1 says that \<open>get(k)\<close> after \<open>set(k, v)\<close> returns \<open>v\<close>, for every key and every JSON
  value. On the code it fails for a falsy value: in every state, \<open>set("counter", 0)\<close>
  returns normally and stores \<open>0\<close> as the own property \<open>counter\<close>, and the
  \<open>get("counter")\<close> that follows returns \<open>null\<close>, since \<open>0 || null\<close> is \<open>null\<close>.
\<close>

theorem set_zero_then_get_null:
  "fst (set_kv e1 ''counter'' (JNum 0) s) = Inr ()
   \<and> get_own (own (store (snd (set_kv e1 ''counter'' (JNum 0) s)))) ''counter'' = Some (JNum 0)
   \<and> fst (get e2 ''counter'' (snd (set_kv e1 ''counter'' (JNum 0) s))) = Inr (Val JNull)"
  by (simp add: get_eq get_property_def get_own_set_property or_null_def)

subsection \<open>C2: get of a key that was never set\<close>

text \<open>
  C2 says that \<open>get(k)\<close> returns \<open>null\<close> for every key that was never set. On the code
  it fails for a key the store inherits from \<open>Object.prototype\<close>: on the fresh module,
  with no data file, the store has no own property and \<open>get("constructor")\<close> returns the
  built-in function that \<open>store["constructor"]\<close> finds on the prototype.
\<close>

theorem get_unset_constructor:
  "own (store (ready dev initial)) = []
   \<and> fst (get dev ''constructor'' initial) = Inr (Builtin ''Object.prototype.constructor'')"
  by (simp add: get_eq ready_dev_initial empty_object_def get_property_def
      from_object_prototype_def object_prototype_names_def or_null_def)

subsection \<open>C3: getByPrefix\<close>

text \<open>
  C3. For every prefix and every state, \<open>getByPrefix\<close> returns exactly the entries of the
  store whose key starts with the prefix, in the order \<open>Object.entries\<close> enumerates them:
  when the keys are distinct these are the pairs \<open>(k, v)\<close> with \<open>v\<close> the own property
  \<open>k\<close> of the store and \<open>k\<close> starting with the prefix; the result is empty when no key
  matches. In the scenario of the spec, on a settled module whose store has no entry and
  in any environments, after \<open>set("video:1", A)\<close> and \<open>set("video:2", B)\<close> the scan of
  \<open>video:\<close> returns both pairs, and after \<open>del("video:1")\<close> only the second.
\<close>

theorem getByPrefix_exact:
  "fst (getByPrefix e p s)
     = Inr (filter (\<lambda>(k, v). startsWith k p) (entries (store (ready e s))))
   \<and> (distinct_keys (store (ready e s)) \<longrightarrow>
        set (filter (\<lambda>(k, v). startsWith k p) (entries (store (ready e s))))
          = {(k, v). get_own (own (store (ready e s))) k = Some v \<and> startsWith k p})
   \<and> (list_all (\<lambda>(k, v). \<not> startsWith k p) (entries (store (ready e s))) \<longrightarrow>
        fst (getByPrefix e p s) = Inr [])
   \<and> (settled s0 \<and> own (store s0) = [] \<longrightarrow>
        fst (getByPrefix e3 ''video:''
              (snd (set_kv e2 ''video:2'' video_B (snd (set_kv e1 ''video:1'' video_A s0)))))
          = Inr [(''video:1'', video_A), (''video:2'', video_B)]
        \<and> fst (getByPrefix e5 ''video:''
              (snd (del e4 ''video:1''
                 (snd (set_kv e2 ''video:2'' video_B
                    (snd (set_kv e1 ''video:1'' video_A s0)))))))
          = Inr [(''video:2'', video_B)])"
proof (intro conjI impI)
  show "fst (getByPrefix e p s)
     = Inr (filter (\<lambda>(k, v). startsWith k p) (entries (store (ready e s))))"
    by (simp add: getByPrefix_eq)
next
  assume "distinct_keys (store (ready e s))"
  then show "set (filter (\<lambda>(k, v). startsWith k p) (entries (store (ready e s))))
          = {(k, v). get_own (own (store (ready e s))) k = Some v \<and> startsWith k p}"
    by (auto simp: set_entries distinct_keys_def get_own_distinct dest: get_own_Some_in)
next
  assume "list_all (\<lambda>(k, v). \<not> startsWith k p) (entries (store (ready e s)))"
  then have "filter (\<lambda>(k, v). startsWith k p) (entries (store (ready e s))) = []"
    by (auto simp: filter_empty_conv list_all_iff)
  then show "fst (getByPrefix e p s) = Inr []"
    by (simp add: getByPrefix_eq)
next
  assume a: "settled s0 \<and> own (store s0) = []"
  then have i: "isInitialized s0" and o: "own (store s0) = []"
    by (simp_all add: settled_def)
  from i o show "fst (getByPrefix e3 ''video:''
              (snd (set_kv e2 ''video:2'' video_B (snd (set_kv e1 ''video:1'' video_A s0)))))
          = Inr [(''video:1'', video_A), (''video:2'', video_B)]"
    by (simp add: getByPrefix_eq set_property_def entries_def is_index_def not_index_video)
  from i o show "fst (getByPrefix e5 ''video:''
              (snd (del e4 ''video:1''
                 (snd (set_kv e2 ''video:2'' video_B
                    (snd (set_kv e1 ''video:1'' video_A s0)))))))
          = Inr [(''video:2'', video_B)]"
    by (simp add: getByPrefix_eq set_property_def delete_property_def entries_def
        is_index_def not_index_video)
qed

theorem getByPrefix_exact_witness:
  "distinct_keys (store (ready dev sample))
   \<and> fst (getByPrefix dev ''video:'' sample)
       = Inr [(''video:2'', video_B), (''video:1'', video_A)]
   \<and> set [(''video:2'', video_B), (''video:1'', video_A)]
       = {(k, v). get_own (own (store (ready dev sample))) k = Some v \<and> startsWith k ''video:''}
   \<and> list_all (\<lambda>(k, v). \<not> startsWith k ''rating:'') (entries (store (ready dev sample)))
   \<and> fst (getByPrefix dev ''rating:'' sample) = Inr []
   \<and> settled settled_empty \<and> own (store settled_empty) = []
   \<and> fst (getByPrefix dev ''video:''
        (snd (set_kv dev ''video:2'' video_B (snd (set_kv dev ''video:1'' video_A settled_empty)))))
       = Inr [(''video:1'', video_A), (''video:2'', video_B)]
   \<and> fst (getByPrefix dev ''video:''
        (snd (del dev ''video:1''
           (snd (set_kv dev ''video:2'' video_B
              (snd (set_kv dev ''video:1'' video_A settled_empty)))))))
       = Inr [(''video:2'', video_B)]"
proof -
  have d: "distinct_keys (store (ready dev sample))"
    by (simp add: ready_sample distinct_keys_def own_sample)
  have n: "list_all (\<lambda>(k, v). \<not> startsWith k ''rating:'') (entries (store (ready dev sample)))"
    by (simp add: ready_sample entries_sample)
  have f: "filter (\<lambda>(k, v). startsWith k ''video:'') (entries (store (ready dev sample)))
      = [(''video:2'', video_B), (''video:1'', video_A)]"
    by (simp add: ready_sample entries_sample)
  from getByPrefix_exact [of dev "''video:''" sample] d f
  have a: "fst (getByPrefix dev ''video:'' sample)
       = Inr [(''video:2'', video_B), (''video:1'', video_A)]"
    and b: "set [(''video:2'', video_B), (''video:1'', video_A)]
       = {(k, v). get_own (own (store (ready dev sample))) k = Some v \<and> startsWith k ''video:''}"
    by simp_all
  from getByPrefix_exact [of dev "''rating:''" sample] n
  have c: "fst (getByPrefix dev ''rating:'' sample) = Inr []"
    by blast
  have g: "settled settled_empty" and h: "own (store settled_empty) = []"
    by (simp_all add: settled_def settled_empty_def empty_object_def)
  from getByPrefix_exact [of dev "''video:''" sample settled_empty dev dev dev dev dev] g h
  have k: "fst (getByPrefix dev ''video:''
        (snd (set_kv dev ''video:2'' video_B (snd (set_kv dev ''video:1'' video_A settled_empty)))))
       = Inr [(''video:1'', video_A), (''video:2'', video_B)]"
    and l: "fst (getByPrefix dev ''video:''
        (snd (del dev ''video:1''
           (snd (set_kv dev ''video:2'' video_B
              (snd (set_kv dev ''video:1'' video_A settled_empty)))))))
       = Inr [(''video:2'', video_B)]"
    by blast+
  from d a b n c g h k l show ?thesis by blast
qed

subsection \<open>C4: mget\<close>

text \<open>
  C4. For every list of keys, with any order and any repetition, \<open>mget\<close> returns normally
  a list as long as the list of keys, whose \<open>i\<close>-th element is what \<open>get\<close> returns for
  the \<open>i\<close>-th key in the same state.
\<close>

theorem mget_elementwise_get:
  "\<exists>vs. fst (mget e keys s) = Inr vs \<and> length vs = length keys
     \<and> (\<forall>i<length keys. fst (get e (keys ! i) s) = Inr (vs ! i))"
  by (simp add: mget_eq get_eq)

theorem mget_elementwise_get_witness:
  "\<exists>vs. fst (mget dev [''video:1'', ''absent'', ''7'', ''video:1''] sample) = Inr vs
     \<and> length vs = 4
     \<and> fst (get dev ''video:1'' sample) = Inr (vs ! 0)
     \<and> fst (get dev ''absent'' sample) = Inr (vs ! 1)
     \<and> fst (get dev ''7'' sample) = Inr (vs ! 2)
     \<and> fst (get dev ''video:1'' sample) = Inr (vs ! 3)"
proof -
  from mget_elementwise_get [of dev "[''video:1'', ''absent'', ''7'', ''video:1'']" sample]
  obtain vs where m: "fst (mget dev [''video:1'', ''absent'', ''7'', ''video:1''] sample) = Inr vs"
    and l: "length vs = 4"
    and g: "\<forall>i<4. fst (get dev ([''video:1'', ''absent'', ''7'', ''video:1''] ! i) sample)
              = Inr (vs ! i)"
    by auto
  from g [rule_format, of 0] g [rule_format, of 1] g [rule_format, of 2] g [rule_format, of 3]
  have "fst (get dev ''video:1'' sample) = Inr (vs ! 0)"
    and "fst (get dev ''absent'' sample) = Inr (vs ! 1)"
    and "fst (get dev ''7'' sample) = Inr (vs ! 2)"
    and "fst (get dev ''video:1'' sample) = Inr (vs ! 3)"
    by simp_all
  with m l show ?thesis by blast
qed

subsection \<open>C5: del, then get\<close>

text \<open>
  C5 says that \<open>del(k)\<close> succeeds for every key, present or not, and that the \<open>get(k)\<close>
  that follows returns \<open>null\<close>. On the code the second part fails for a key the store
  inherits: on the fresh module \<open>del("toString")\<close> returns normally and leaves the
  store without own properties, and \<open>get("toString")\<close> then returns the built-in function
  of \<open>Object.prototype\<close>.
\<close>

theorem del_then_get_toString:
  "fst (del dev ''toString'' initial) = Inr ()
   \<and> own (store (snd (del dev ''toString'' initial))) = []
   \<and> fst (get dev ''toString'' (snd (del dev ''toString'' initial)))
       = Inr (Builtin ''Object.prototype.toString'')"
  by (simp add: get_eq ready_dev_initial empty_object_def delete_property_def get_property_def
      from_object_prototype_def object_prototype_names_def or_null_def)

subsection \<open>C6: del is idempotent\<close>

text \<open>
  C6. For every key and every state of a settled module, any number of further calls of
  \<open>del(k)\<close> after a first one, each in an environment of its own, leave the module
  variables \<open>store\<close> and \<open>isInitialized\<close> as the first call left them, and the module
  settled; the second call returns normally; and every \<open>get\<close>, \<open>mget\<close> and
  \<open>getByPrefix\<close> returns afterwards what it returns after the first call. (The trace of
  effects grows by one attempt to save per call.)
\<close>

theorem del_idempotent:
  assumes "settled s"
  shows "store (fold (\<lambda>e s. snd (del e k s)) es (snd (del e1 k s))) = store (snd (del e1 k s))
   \<and> isInitialized (fold (\<lambda>e s. snd (del e k s)) es (snd (del e1 k s)))
       = isInitialized (snd (del e1 k s))
   \<and> settled (fold (\<lambda>e s. snd (del e k s)) es (snd (del e1 k s)))
   \<and> fst (del e2 k (snd (del e1 k s))) = Inr ()
   \<and> fst (get e3 k' (fold (\<lambda>e s. snd (del e k s)) es (snd (del e1 k s))))
       = fst (get e3 k' (snd (del e1 k s)))
   \<and> fst (mget e3 ks (fold (\<lambda>e s. snd (del e k s)) es (snd (del e1 k s))))
       = fst (mget e3 ks (snd (del e1 k s)))
   \<and> fst (getByPrefix e3 p (fold (\<lambda>e s. snd (del e k s)) es (snd (del e1 k s))))
       = fst (getByPrefix e3 p (snd (del e1 k s)))"
proof -
  have i: "isInitialized (snd (del e1 k s))" by simp
  from repeated_del_store [OF i, of k es]
  have st: "store (fold (\<lambda>e s. snd (del e k s)) es (snd (del e1 k s))) = store (snd (del e1 k s))"
    and fl: "isInitialized (fold (\<lambda>e s. snd (del e k s)) es (snd (del e1 k s)))"
    by (simp_all add: delete_property_twice)
  have "inFlight (fold (\<lambda>e s. snd (del e k s)) es t) = inFlight t" for t
    by (induction es arbitrary: t) simp_all
  with assms have "inFlight (fold (\<lambda>e s. snd (del e k s)) es (snd (del e1 k s))) = 0"
    by (simp add: settled_def)
  with st fl i show ?thesis
    by (simp add: get_eq mget_eq getByPrefix_eq settled_def)
qed

theorem del_idempotent_witness:
  "settled settled_pair
   \<and> store (snd (del dev ''video:1'' settled_pair))
       = \<lparr>own = [(''user:1'', JStr ''u'')], proto = ObjectPrototype\<rparr>
   \<and> store (fold (\<lambda>e s. snd (del e ''video:1'' s)) [dev, dev\<lparr>write_ok := False\<rparr>]
        (snd (del dev ''video:1'' settled_pair)))
       = store (snd (del dev ''video:1'' settled_pair))
   \<and> fst (get dev ''user:1''
        (fold (\<lambda>e s. snd (del e ''video:1'' s)) [dev, dev\<lparr>write_ok := False\<rparr>]
           (snd (del dev ''video:1'' settled_pair))))
       = fst (get dev ''user:1'' (snd (del dev ''video:1'' settled_pair)))
   \<and> fst (getByPrefix dev ''video:''
        (fold (\<lambda>e s. snd (del e ''video:1'' s)) [dev, dev\<lparr>write_ok := False\<rparr>]
           (snd (del dev ''video:1'' settled_pair))))
       = fst (getByPrefix dev ''video:'' (snd (del dev ''video:1'' settled_pair)))"
proof -
  have h: "settled settled_pair"
    by (simp add: settled_def settled_pair_def)
  have o: "store (snd (del dev ''video:1'' settled_pair))
       = \<lparr>own = [(''user:1'', JStr ''u'')], proto = ObjectPrototype\<rparr>"
    by (simp add: settled_ready [OF h] delete_property_def) (simp add: settled_pair_def)
  note t = del_idempotent [OF h, of "''video:1''" "[dev, dev\<lparr>write_ok := False\<rparr>]" dev]
  from t [of dev dev "''user:1''" "[]" "''video:''"] h o show ?thesis
    by blast
qed

subsection \<open>C7: a key that was set stays set\<close>

text \<open>
  C7 says that after \<open>set(k, v)\<close> the store maps \<open>k\<close> to \<open>v\<close> until \<open>k\<close> is set again
  or deleted. On the code it fails for the key \<open>__proto__\<close>: on the fresh module
  \<open>set("__proto__", "x")\<close> returns normally and leaves the store as it was, the empty
  object, with no own property \<open>__proto__\<close>; the assignment runs the inherited setter,
  which ignores a string. The \<open>get("__proto__")\<close> that follows returns
  \<open>Object.prototype\<close> itself.
\<close>

theorem set_proto_not_stored:
  "fst (set_kv dev ''__proto__'' (JStr ''x'') initial) = Inr ()
   \<and> store (snd (set_kv dev ''__proto__'' (JStr ''x'') initial)) = empty_object
   \<and> get_own (own (store (snd (set_kv dev ''__proto__'' (JStr ''x'') initial)))) ''__proto__''
       = None
   \<and> fst (get dev ''__proto__'' (snd (set_kv dev ''__proto__'' (JStr ''x'') initial)))
       = Inr (Builtin ''Object.prototype'')"
  by (simp add: get_eq ready_dev_initial empty_object_def set_property_def
      reaches_proto_setter_def get_property_def from_object_prototype_def or_null_def)

subsection \<open>C8: a failed write is not surfaced\<close>

text \<open>
  C8. Each of \<open>set\<close>, \<open>del\<close>, \<open>mset\<close> and \<open>mdel\<close> returns normally in every state and
  every environment, so also when the write of the snapshot fails. On a settled module,
  when the write fails the store is updated as the call asks, and is the store that the
  same call leaves when the write succeeds.
\<close>

theorem write_failure_not_surfaced:
  "fst (set_kv e k v s) = Inr ()
   \<and> fst (del e k s) = Inr ()
   \<and> fst (mset e kvs s) = Inr ()
   \<and> fst (mdel e ks s) = Inr ()
   \<and> (settled s \<longrightarrow>
        store (snd (set_kv (e\<lparr>write_ok := False\<rparr>) k v s)) = set_property (store s) k v
      \<and> store (snd (set_kv (e\<lparr>write_ok := False\<rparr>) k v s))
          = store (snd (set_kv (e\<lparr>write_ok := True\<rparr>) k v s))
      \<and> store (snd (del (e\<lparr>write_ok := False\<rparr>) k s)) = delete_property (store s) k
      \<and> store (snd (del (e\<lparr>write_ok := False\<rparr>) k s))
          = store (snd (del (e\<lparr>write_ok := True\<rparr>) k s))
      \<and> store (snd (mset (e\<lparr>write_ok := False\<rparr>) kvs s)) = mset_loop kvs (store s)
      \<and> store (snd (mset (e\<lparr>write_ok := False\<rparr>) kvs s))
          = store (snd (mset (e\<lparr>write_ok := True\<rparr>) kvs s))
      \<and> store (snd (mdel (e\<lparr>write_ok := False\<rparr>) ks s)) = mdel_loop ks (store s)
      \<and> store (snd (mdel (e\<lparr>write_ok := False\<rparr>) ks s))
          = store (snd (mdel (e\<lparr>write_ok := True\<rparr>) ks s)))"
  by (simp add: settled_def)

theorem write_failure_not_surfaced_witness:
  "settled settled_pair
   \<and> fst (set_kv (dev\<lparr>write_ok := False\<rparr>) ''video:2'' video_B settled_pair) = Inr ()
   \<and> store (snd (set_kv (dev\<lparr>write_ok := False\<rparr>) ''video:2'' video_B settled_pair))
       = set_property (store settled_pair) ''video:2'' video_B
   \<and> store (snd (set_kv (dev\<lparr>write_ok := False\<rparr>) ''video:2'' video_B settled_pair))
       = store (snd (set_kv (dev\<lparr>write_ok := True\<rparr>) ''video:2'' video_B settled_pair))
   \<and> store (snd (del (dev\<lparr>write_ok := False\<rparr>) ''video:1'' settled_pair))
       = delete_property (store settled_pair) ''video:1''
   \<and> store (snd (mset (dev\<lparr>write_ok := False\<rparr>) [(''video:2'', video_B)] settled_pair))
       = mset_loop [(''video:2'', video_B)] (store settled_pair)
   \<and> store (snd (mdel (dev\<lparr>write_ok := False\<rparr>) [''video:1''] settled_pair))
       = mdel_loop [''video:1''] (store settled_pair)"
proof -
  have h: "settled settled_pair"
    by (simp add: settled_def settled_pair_def)
  from write_failure_not_surfaced
    [of dev "''video:2''" video_B settled_pair] h
  have a: "fst (set_kv dev ''video:2'' video_B settled_pair) = Inr ()"
    and b: "store (snd (set_kv (dev\<lparr>write_ok := False\<rparr>) ''video:2'' video_B settled_pair))
       = set_property (store settled_pair) ''video:2'' video_B"
    and c: "store (snd (set_kv (dev\<lparr>write_ok := False\<rparr>) ''video:2'' video_B settled_pair))
       = store (snd (set_kv (dev\<lparr>write_ok := True\<rparr>) ''video:2'' video_B settled_pair))"
    by blast+
  from write_failure_not_surfaced
    [of "dev\<lparr>write_ok := False\<rparr>" "''video:2''" video_B settled_pair]
  have a': "fst (set_kv (dev\<lparr>write_ok := False\<rparr>) ''video:2'' video_B settled_pair) = Inr ()"
    by blast
  from write_failure_not_surfaced
    [of dev "''video:1''" video_B settled_pair "[(''video:2'', video_B)]" "[''video:1'']"] h
  have d: "store (snd (del (dev\<lparr>write_ok := False\<rparr>) ''video:1'' settled_pair))
       = delete_property (store settled_pair) ''video:1''"
    and f: "store (snd (mset (dev\<lparr>write_ok := False\<rparr>) [(''video:2'', video_B)] settled_pair))
       = mset_loop [(''video:2'', video_B)] (store settled_pair)"
    and g: "store (snd (mdel (dev\<lparr>write_ok := False\<rparr>) [''video:1''] settled_pair))
       = mdel_loop [''video:1''] (store settled_pair)"
    by blast+
  from h a' b c d f g show ?thesis by blast
qed

subsection \<open>C9: initialization without a usable snapshot\<close>

text \<open>
  C9 says that initialization against a missing or unparsable data file does not raise
  and leaves an empty mapping, on which every \<open>get\<close> returns \<open>null\<close>. On the code the
  first part holds and the last fails: with the file missing, and with the file
  malformed, \<open>initializeStore\<close> on the fresh module returns normally and leaves the empty
  object, on which \<open>get("constructor")\<close> returns the built-in function inherited from
  \<open>Object.prototype\<close>.
\<close>

theorem fresh_store_get_constructor:
  "fst (initializeStore dev initial) = Inr ()
   \<and> store (snd (initializeStore dev initial)) = empty_object
   \<and> fst (get dev ''constructor'' (snd (initializeStore dev initial)))
       = Inr (Builtin ''Object.prototype.constructor'')
   \<and> fst (initializeStore (dev\<lparr>snapshot := Malformed\<rparr>) initial) = Inr ()
   \<and> store (snd (initializeStore (dev\<lparr>snapshot := Malformed\<rparr>) initial)) = empty_object
   \<and> fst (get dev ''constructor'' (snd (initializeStore (dev\<lparr>snapshot := Malformed\<rparr>) initial)))
       = Inr (Builtin ''Object.prototype.constructor'')"
proof -
  have i: "\<not> isInitialized initial" by (simp add: initial_def)
  have m: "snapshot dev = Missing \<or> snapshot dev = Malformed" by (simp add: dev_def)
  have c: "snapshot (dev\<lparr>snapshot := Malformed\<rparr>) = Missing
      \<or> snapshot (dev\<lparr>snapshot := Malformed\<rparr>) = Malformed" by simp
  from initializeStore_without_snapshot [OF i m] initializeStore_without_snapshot [OF i c]
  show ?thesis
    by (simp add: get_eq empty_object_def get_property_def from_object_prototype_def
        object_prototype_names_def or_null_def)
qed

subsection \<open>C10: falsy values read as absent\<close>

text \<open>
  C10. When the store has an own property \<open>k\<close> whose value \<open>v\<close> is \<open>false\<close>, \<open>0\<close>, the
  empty string or \<open>null\<close>, \<open>get(k)\<close> returns \<open>null\<close>, \<open>mget\<close> returns \<open>null\<close> at every
  position of \<open>k\<close> in its list of keys, and \<open>getByPrefix\<close> with any prefix of \<open>k\<close> returns
  the pair \<open>(k, v)\<close> among its results; unless \<open>v\<close> is \<open>null\<close> itself, what \<open>get\<close>
  returns is not the stored value.
\<close>

theorem falsy_value_reads_as_absent:
  assumes "get_own (own (store (ready e s))) k = Some v"
    and "v = JBool False \<or> v = JNum 0 \<or> v = JStr [] \<or> v = JNull"
  shows "fst (get e k s) = Inr (Val JNull)
    \<and> (\<forall>keys i. i < length keys \<and> keys ! i = k \<longrightarrow>
          (\<exists>vs. fst (mget e keys s) = Inr vs \<and> vs ! i = Val JNull))
    \<and> (\<forall>p. startsWith k p \<longrightarrow>
          (\<exists>r. fst (getByPrefix e p s) = Inr r \<and> (k, v) \<in> set r))
    \<and> (v \<noteq> JNull \<longrightarrow> fst (get e k s) \<noteq> Inr (Val v))"
proof -
  from assms have r: "or_null (get_property (store (ready e s)) k) = Val JNull"
    by (auto simp: or_null_def get_property_def)
  from assms(1) have "(k, v) \<in> set (entries (store (ready e s)))"
    by (simp add: set_entries get_own_Some_in)
  with r show ?thesis
    by (auto simp: get_eq mget_eq getByPrefix_eq)
qed

theorem falsy_value_reads_as_absent_witness:
  "get_own (own (store (ready dev falsy_sample))) ''count'' = Some (JNum 0)
   \<and> fst (get dev ''count'' falsy_sample) = Inr (Val JNull)
   \<and> (\<exists>vs. fst (mget dev [''flag'', ''count''] falsy_sample) = Inr vs \<and> vs ! 1 = Val JNull)
   \<and> (\<exists>r. fst (getByPrefix dev ''co'' falsy_sample) = Inr r \<and> (''count'', JNum 0) \<in> set r)
   \<and> fst (get dev ''count'' falsy_sample) \<noteq> Inr (Val (JNum 0))"
proof -
  have h: "get_own (own (store (ready dev falsy_sample))) ''count'' = Some (JNum 0)"
    by (simp add: ready_falsy_sample own_falsy_sample)
  have f: "JNum 0 = JBool False \<or> JNum 0 = JNum 0 \<or> JNum 0 = JStr [] \<or> JNum 0 = JNull"
    by simp
  note t = falsy_value_reads_as_absent [OF h f]
  from t have a: "fst (get dev ''count'' falsy_sample) = Inr (Val JNull)"
    and d: "fst (get dev ''count'' falsy_sample) \<noteq> Inr (Val (JNum 0))"
    by simp_all
  from t have "(1::nat) < length [''flag'', ''count''] \<and> [''flag'', ''count''] ! 1 = ''count'' \<longrightarrow>
      (\<exists>vs. fst (mget dev [''flag'', ''count''] falsy_sample) = Inr vs \<and> vs ! 1 = Val JNull)"
    by blast
  then have b: "\<exists>vs. fst (mget dev [''flag'', ''count''] falsy_sample) = Inr vs \<and> vs ! 1 = Val JNull"
    by simp
  from t have "startsWith ''count'' ''co'' \<longrightarrow>
      (\<exists>r. fst (getByPrefix dev ''co'' falsy_sample) = Inr r \<and> (''count'', JNum 0) \<in> set r)"
    by blast
  then have c: "\<exists>r. fst (getByPrefix dev ''co'' falsy_sample) = Inr r \<and> (''count'', JNum 0) \<in> set r"
    by simp
  from h a b c d show ?thesis by blast
qed

end
